theory Spec2Isabelle
  imports Main
begin

section \<open>Content generators of JARR (jarr/lib/content\_generator.py)\<close>

text \<open>
  A Python \<open>str\<close> is modelled as a \<open>string\<close> in which every \<open>char\<close> stands for one code
  point; the model therefore covers the code points below 256. An optional attribute
  (\<open>None\<close> or a value) is an \<open>option\<close>. Every exception the module can raise is a value
  of \<open>exn\<close>; all of them are subclasses of Python's \<open>Exception\<close>.
\<close>

datatype exn = TypeError | AttributeError | IndexError | NameError | FetchError

subsection \<open>Enumerations, articles and feeds\<close>

text \<open>
  Modelled from the spec: \<open>jarr.lib.enums\<close> (ArticleType, FeedType) is imported by the
  module and is not part of the sources at hand. The spec names the members
  \<open>image\<close> and \<open>embedded\<close> of ArticleType and \<open>reddit\<close> of FeedType and leaves the others
  open; the discriminators it gives for the two article types are their \<open>.value\<close>.
  Members of an \<open>Enum\<close> are truthy, and members of different enumerations are never equal.
\<close>

datatype ArticleType = ArticleType_image | ArticleType_embedded | ArticleType_other string

datatype FeedType = FeedType_reddit | FeedType_other string

fun ArticleType_value :: "ArticleType \<Rightarrow> string" where
  "ArticleType_value ArticleType_image = ''image''"
| "ArticleType_value ArticleType_embedded = ''embedded''"
| "ArticleType_value (ArticleType_other s) = s"

text \<open>
  Modelled from the spec: the Article and Feed classes belong to the persistence layer,
  which is not part of the sources at hand. The fields are those the module reads, with
  the optionality the spec's data model gives them.
\<close>

record Feed =
  feed_type :: "FeedType option"
  truncated_content :: bool

record Article =
  article_id :: nat
  link :: string
  title :: "string option"
  content :: "string option"
  comments :: "string option"
  article_type :: "ArticleType option"
  feed :: Feed

text \<open>Truth value of an optional string: \<open>None\<close> and the empty string are falsy.\<close>

fun truthy :: "string option \<Rightarrow> bool" where
  "truthy None = False"
| "truthy (Some s) = (s \<noteq> [])"

subsection \<open>The class hierarchy and the registry\<close>

datatype generator_class =
    ContentGenerator
  | ImageContentGenerator
  | EmbeddedContentGenerator
  | TruncatedContentGenerator
  | RedditContentGenerator

text \<open>\<open>cls.__subclasses__()\<close>: the direct subclasses, in the order of their definition.\<close>

fun subclasses :: "generator_class \<Rightarrow> generator_class list" where
  "subclasses ContentGenerator =
     [ImageContentGenerator, EmbeddedContentGenerator, TruncatedContentGenerator]"
| "subclasses TruncatedContentGenerator = [RedditContentGenerator]"
| "subclasses _ = []"

text \<open>The class attributes \<open>article_type\<close> and \<open>feed_type\<close>, inherited where not overridden.\<close>

fun cls_article_type :: "generator_class \<Rightarrow> ArticleType option" where
  "cls_article_type ImageContentGenerator = Some ArticleType_image"
| "cls_article_type EmbeddedContentGenerator = Some ArticleType_embedded"
| "cls_article_type _ = None"

fun cls_feed_type :: "generator_class \<Rightarrow> FeedType option" where
  "cls_feed_type RedditContentGenerator = Some FeedType_reddit"
| "cls_feed_type _ = None"

text \<open>The keys of \<open>CONTENT_GENERATORS\<close> are members of either enumeration.\<close>

datatype type_key = AKey ArticleType | FKey FeedType

type_synonym registry = "type_key \<rightharpoonup> generator_class"

definition feed_mapping :: "generator_class \<Rightarrow> registry \<Rightarrow> registry" where
  "feed_mapping subcls reg =
     (let reg1 = (case cls_feed_type subcls of
                    Some ft \<Rightarrow> reg(FKey ft \<mapsto> subcls)
                  | None \<Rightarrow> reg)
      in case cls_article_type subcls of
           Some at \<Rightarrow> reg1(AKey at \<mapsto> subcls)
         | None \<Rightarrow> reg1)"

text \<open>The module-level loop over the subclasses and their subclasses.\<close>

definition CONTENT_GENERATORS :: registry where
  "CONTENT_GENERATORS =
     fold (\<lambda>subcls reg. fold feed_mapping (subclasses subcls) (feed_mapping subcls reg))
          (subclasses ContentGenerator) Map.empty"

subsection \<open>Fetched pages\<close>

text \<open>
  An element of the parsed document: the result of serialising it
  (\<open>etree.tostring(node, encoding=...).decode(encoding)\<close>, which may raise) and its next
  sibling (\<open>getnext()\<close>).
\<close>

datatype node = Element "exn + string" "node option"

record Page =
  opengraph :: "(string \<times> string) list"
  meta_lang :: "string option"
  final_url :: string
  meta_keywords :: string
  tags :: "string list"
  page_title :: string
  top_node :: "node option"

record Infos =
  info_lang :: "string option"
  info_link :: string
  info_tags :: "string set"
  info_title :: string

text \<open>
  What a call performs besides computing its result: a fetch of a page, and an evaluation
  of the property \<open>is_pure_reddit_post\<close>.
\<close>

datatype event = GooseExtract string | PureRedditCheck

text \<open>
  An instance of a generator class. \<open>page\<close> is \<open>self._page\<close>; \<open>extracted_infos\<close> is
  \<open>None\<close> for the empty dictionary; \<open>trace\<close> records the events performed through
  the instance, oldest first.
\<close>

record Generator =
  cls :: generator_class
  article :: Article
  page :: "Page option"
  extracted_infos :: "Infos option"
  trace :: "event list"

text \<open>\<open>ContentGenerator.__init__\<close>, which every class inherits.\<close>

definition init :: "generator_class \<Rightarrow> Article \<Rightarrow> Generator" where
  "init c a = \<lparr>cls = c, article = a, page = None, extracted_infos = None, trace = []\<rparr>"

subsection \<open>The dispatcher\<close>

text \<open>The function that \<open>lru_cache\<close> wraps (its \<open>__wrapped__\<close>).\<close>

definition get_content_generator_wrapped :: "Article \<Rightarrow> Generator" where
  "get_content_generator_wrapped a =
     (case (case article_type a of
              Some t \<Rightarrow> CONTENT_GENERATORS (AKey t)
            | None \<Rightarrow> None) of
        Some c \<Rightarrow> init c a
      | None \<Rightarrow>
         (case (case feed_type (feed a) of
                  Some t \<Rightarrow> CONTENT_GENERATORS (FKey t)
                | None \<Rightarrow> None) of
            Some c \<Rightarrow> init c a
          | None \<Rightarrow>
             if truncated_content (feed a) then init TruncatedContentGenerator a
             else init ContentGenerator a))"

subsection \<open>The collaborators\<close>

text \<open>
  The services the module calls and that are not part of it: \<open>goose_extract\<close> is
  \<open>Goose(...).extract(link)\<close>, which returns a page or raises; \<open>to_vector\<close> is
  \<open>jarr.controllers.article.to_vector\<close>; \<open>http_head\<close> is what
  \<open>requests.head(url, allow_redirects=True, timeout=...)\<close> followed by
  \<open>raise_for_status()\<close> would give: the final URL, or an exception.
\<close>

record 'v env =
  goose_extract :: "string \<Rightarrow> exn + Page"
  to_vector :: "Infos \<Rightarrow> Page \<Rightarrow> 'v"
  http_head :: "string option \<Rightarrow> exn + string"

text \<open>
  The names bound in the module's namespace when its functions run: the imports, the
  constants, the functions, the classes and the two loop variables. A name that is
  neither here nor a builtin raises \<open>NameError\<close> when it is evaluated.
\<close>

definition module_globals :: "string list" where
  "module_globals =
     [''html'', ''logging'', ''re'', ''lru_cache'', ''Goose'', ''etree'', ''conf'',
      ''to_vector'', ''ArticleType'', ''FeedType'', ''logger'', ''IMG_ALT_MAX_LENGTH'',
      ''YOUTUBE_RE'', ''is_embedded_link'', ''ContentGenerator'',
      ''ImageContentGenerator'', ''EmbeddedContentGenerator'',
      ''TruncatedContentGenerator'', ''RedditContentGenerator'', ''CONTENT_GENERATORS'',
      ''feed_mapping'', ''subcls'', ''subsubcls'', ''get_content_generator'']"

definition load_global :: "string \<Rightarrow> exn + unit" where
  "load_global name = (if name \<in> set module_globals then Inr () else Inl NameError)"

subsection \<open>The base class\<close>

text \<open>\<open>s.split(', ')\<close>, with the piece read so far as first argument.\<close>

fun split_comma_space :: "string \<Rightarrow> string \<Rightarrow> string list" where
  "split_comma_space cur [] = [cur]"
| "split_comma_space cur [c] = [cur @ [c]]"
| "split_comma_space cur (c # d # ds) =
     (if c = CHR '','' \<and> d = CHR '' '' then cur # split_comma_space [] ds
      else split_comma_space (cur @ [c]) (d # ds))"

text \<open>\<open>page.opengraph.get('locale') or page.meta_lang\<close>.\<close>

definition page_lang :: "Page \<Rightarrow> string option" where
  "page_lang p =
     (if truthy (map_of (opengraph p) ''locale'') then map_of (opengraph p) ''locale''
      else meta_lang p)"

definition get_goose :: "'v env \<Rightarrow> Generator \<Rightarrow> bool \<times> Generator" where
  "get_goose e g =
     (let g1 = g\<lparr>trace := trace g @ [GooseExtract (link (article g))]\<rparr>;
          g2 = (case goose_extract e (link (article g)) of
                  Inl error \<Rightarrow> g1
                | Inr p \<Rightarrow> g1\<lparr>page := Some p\<rparr>)
      in case page g2 of
           None \<Rightarrow> (False, g2)
         | Some p \<Rightarrow>
             (True, g2\<lparr>extracted_infos := Some
                \<lparr>info_lang = page_lang p,
                 info_link = final_url p,
                 info_tags = set (tags p) \<union> set (split_comma_space [] (meta_keywords p)),
                 info_title = page_title p\<rparr>\<rparr>))"

definition ContentGenerator_get_vector ::
    "'v env \<Rightarrow> Generator \<Rightarrow> (exn + 'v option) \<times> Generator" where
  "ContentGenerator_get_vector e g =
     (let g1 = (if page g = None then snd (get_goose e g) else g)
      in case page g1 of
           None \<Rightarrow> (Inr None, g1)
         | Some p \<Rightarrow>
             (case extracted_infos g1 of
                None \<Rightarrow> (Inr None, g1)
              | Some infos \<Rightarrow> (Inr (Some (to_vector e infos p)), g1)))"

text \<open>The loop of \<open>_from_goose_to_html\<close>, from the current node on.\<close>

fun html_loop :: "string \<Rightarrow> node \<Rightarrow> exn + string" where
  "html_loop result (Element markup nxt) =
     (case markup of
        Inl error \<Rightarrow> Inl error
      | Inr s \<Rightarrow>
          (case nxt of
             None \<Rightarrow> Inr (result @ s)
           | Some current_node \<Rightarrow> html_loop (result @ s) current_node))"

text \<open>
  \<open>self._page.top_node\<close> raises \<open>AttributeError\<close> when there is no page, and
  \<open>etree.tostring(None)\<close> raises \<open>TypeError\<close>.
\<close>

definition from_goose_to_html :: "Generator \<Rightarrow> exn + string" where
  "from_goose_to_html g =
     (case page g of
        None \<Rightarrow> Inl AttributeError
      | Some p \<Rightarrow>
          (case top_node p of
             None \<Rightarrow> Inl TypeError
           | Some current_node \<Rightarrow> html_loop [] current_node))"

text \<open>
  A content dictionary, in insertion order; its values are strings or \<open>None\<close>.
  \<open>dict_set\<close> is \<open>d[k] = v\<close>.
\<close>

datatype pyvalue = Str string | PyNone

type_synonym content_dict = "(string \<times> pyvalue) list"

fun dict_set :: "content_dict \<Rightarrow> string \<Rightarrow> pyvalue \<Rightarrow> content_dict" where
  "dict_set [] k v = [(k, v)]"
| "dict_set ((k', v') # d) k v =
     (if k' = k then (k, v) # d else (k', v') # dict_set d k v)"

type_synonym generated = "(exn + bool \<times> content_dict) \<times> Generator"

definition ContentGenerator_generate :: "Generator \<Rightarrow> generated" where
  "ContentGenerator_generate g = (Inr (False, []), g)"

subsection \<open>Images\<close>

definition IMG_ALT_MAX_LENGTH :: nat where
  "IMG_ALT_MAX_LENGTH = 100"

text \<open>\<open>html.escape(s)\<close>, with \<open>quote=True\<close>.\<close>

definition html_escape_char :: "char \<Rightarrow> string" where
  "html_escape_char c =
     (if c = CHR ''&'' then ''&amp;''
      else if c = CHR ''<'' then ''&lt;''
      else if c = CHR ''>'' then ''&gt;''
      else if c = CHR 0x22 then ''&quot;''
      else if c = CHR 0x27 then ''&#x27;''
      else [c])"

definition html_escape :: "string \<Rightarrow> string" where
  "html_escape s = concat (map html_escape_char s)"

definition ImageContentGenerator_get_vector ::
    "Generator \<Rightarrow> (exn + 'v option) \<times> Generator" where
  "ImageContentGenerator_get_vector g = (Inr None, g)"

text \<open>
  The dictionary display evaluates \<open>self.article.article_type.value\<close> first
  (\<open>AttributeError\<close> on \<open>None\<close>), then \<open>text[:IMG_ALT_MAX_LENGTH]\<close>
  (\<open>TypeError\<close> on \<open>None\<close>).
\<close>

definition ImageContentGenerator_generate :: "Generator \<Rightarrow> generated" where
  "ImageContentGenerator_generate g =
     (let a = article g;
          text = (if truthy (title a) then title a else content a)
      in case article_type a of
           None \<Rightarrow> (Inl AttributeError, g)
         | Some t \<Rightarrow>
             (case text of
                None \<Rightarrow> (Inl TypeError, g)
              | Some s \<Rightarrow>
                  (Inr (True, [(''type'', Str (ArticleType_value t)),
                               (''alt'', Str (html_escape (take IMG_ALT_MAX_LENGTH s))),
                               (''src'', Str (link a))]), g)))"

subsection \<open>Embedded videos\<close>

text \<open>
  The fragment of Python's regular expressions that \<open>YOUTUBE_RE\<close> uses. \<open>Dot\<close> is
  \<open>.\<close> (any character but a newline), \<open>Plus c\<close> is a greedy \<open>+\<close> on a character class,
  \<open>Opt\<close> is a greedy \<open>?\<close>, \<open>Group n\<close> is the n-th capturing group, \<open>Bol\<close> and \<open>Eol\<close>
  are \<open>^\<close> and \<open>$\<close> without the MULTILINE flag.
\<close>

datatype charclass = Word_or_dash | Non_space

datatype regex =
    Lit string
  | Dot
  | Plus charclass
  | Seq regex regex
  | Alt regex regex
  | Opt regex
  | Group nat regex
  | Bol
  | Eol

text \<open>
  \<open>\w\<close> and \<open>\s\<close> on a \<open>str\<close> pattern follow Unicode: besides the ASCII letters, the
  digits and the underscore, \<open>\w\<close> holds the alphanumeric code points of Latin-1, and
  \<open>\s\<close> holds the separators 0x1c to 0x1f, 0x85 and 0xa0 besides the ASCII white space.
\<close>

definition is_word :: "char \<Rightarrow> bool" where
  "is_word c =
     (let n = (of_char c :: nat)
      in (48 \<le> n \<and> n \<le> 57) \<or> (65 \<le> n \<and> n \<le> 90) \<or> n = 95 \<or> (97 \<le> n \<and> n \<le> 122)
         \<or> n = 170 \<or> n = 178 \<or> n = 179 \<or> n = 181 \<or> n = 185 \<or> n = 186
         \<or> (188 \<le> n \<and> n \<le> 190) \<or> (192 \<le> n \<and> n \<le> 214) \<or> (216 \<le> n \<and> n \<le> 246)
         \<or> 248 \<le> n)"

definition is_space :: "char \<Rightarrow> bool" where
  "is_space c =
     (let n = (of_char c :: nat)
      in (9 \<le> n \<and> n \<le> 13) \<or> (28 \<le> n \<and> n \<le> 32) \<or> n = 133 \<or> n = 160)"

fun in_class :: "charclass \<Rightarrow> char \<Rightarrow> bool" where
  "in_class Word_or_dash c = (is_word c \<or> c = CHR ''-'')"
| "in_class Non_space c = (\<not> is_space c)"

text \<open>
  A state of the matcher is the input still to read and the groups captured so far.
  \<open>rmatch inp r st\<close> lists the states in which a match of \<open>r\<close> from \<open>st\<close> can end, in the
  order in which the backtracking engine tries them: the longest run first for a greedy
  \<open>+\<close>, the present branch first for a greedy \<open>?\<close>, the left branch first for \<open>|\<close>.
\<close>

type_synonym mstate = "string \<times> (nat \<rightharpoonup> string)"

fun rmatch :: "string \<Rightarrow> regex \<Rightarrow> mstate \<Rightarrow> mstate list" where
  "rmatch inp (Lit s) st =
     (if take (length s) (fst st) = s then [(drop (length s) (fst st), snd st)] else [])"
| "rmatch inp Dot st =
     (case fst st of
        [] \<Rightarrow> []
      | c # cs \<Rightarrow> if c = CHR 0x0A then [] else [(cs, snd st)])"
| "rmatch inp (Plus cl) st =
     map (\<lambda>n. (drop n (fst st), snd st))
         (rev [1 ..< Suc (length (takeWhile (in_class cl) (fst st)))])"
| "rmatch inp (Seq r1 r2) st = concat (map (rmatch inp r2) (rmatch inp r1 st))"
| "rmatch inp (Alt r1 r2) st = rmatch inp r1 st @ rmatch inp r2 st"
| "rmatch inp (Opt r) st = rmatch inp r st @ [st]"
| "rmatch inp (Group n r) st =
     map (\<lambda>st'. (fst st', (snd st')(n \<mapsto> take (length (fst st) - length (fst st')) (fst st))))
         (rmatch inp r st)"
| "rmatch inp Bol st = (if length (fst st) = length inp then [st] else [])"
| "rmatch inp Eol st = (if fst st = [] \<or> fst st = [CHR 0x0A] then [st] else [])"

text \<open>The number of capturing groups of a pattern.\<close>

fun groups :: "regex \<Rightarrow> nat" where
  "groups (Seq r1 r2) = groups r1 + groups r2"
| "groups (Alt r1 r2) = groups r1 + groups r2"
| "groups (Opt r) = groups r"
| "groups (Group n r) = Suc (groups r)"
| "groups _ = 0"

text \<open>
  A match object: the pattern and the captured groups. \<open>pattern.match(s)\<close> is the first
  state the engine reaches, or \<open>None\<close>.
\<close>

record match_object =
  mo_re :: regex
  mo_groups :: "nat \<rightharpoonup> string"

definition re_match :: "regex \<Rightarrow> string \<Rightarrow> match_object option" where
  "re_match r inp =
     (case rmatch inp r (inp, Map.empty) of
        [] \<Rightarrow> None
      | st # _ \<Rightarrow> Some \<lparr>mo_re = r, mo_groups = snd st\<rparr>)"

text \<open>
  \<open>m.group(n)\<close> for \<open>n > 0\<close>: \<open>IndexError\<close> when the pattern has no such group, \<open>None\<close>
  when the group took no part in the match.
\<close>

definition group :: "match_object \<Rightarrow> nat \<Rightarrow> exn + pyvalue" where
  "group m n =
     (if n > groups (mo_re m) then Inl IndexError
      else case mo_groups m n of None \<Rightarrow> Inr PyNone | Some s \<Rightarrow> Inr (Str s))"

definition YOUTUBE_RE :: regex where
  "YOUTUBE_RE =
     Seq Bol
    (Seq (Opt (Group 1 (Seq (Opt (Seq (Lit ''http'') (Seq (Opt (Lit ''s'')) (Lit '':''))))
                            (Lit ''//''))))
    (Seq (Opt (Group 2 (Seq (Alt (Lit ''www'') (Lit ''m'')) (Lit ''.''))))
    (Seq (Group 3 (Alt (Lit ''youtube.com'') (Seq (Lit ''youtu'') (Seq Dot (Lit ''be'')))))
    (Seq (Group 4 (Seq (Lit ''/'')
                       (Opt (Alt (Seq (Plus Word_or_dash) (Lit ''?v=''))
                            (Alt (Lit ''embed/'') (Lit ''v/''))))))
    (Seq (Group 5 (Plus Word_or_dash))
    (Seq (Opt (Group 6 (Plus Non_space)))
         Eol))))))"

definition is_embedded_link :: "string \<Rightarrow> match_object option" where
  "is_embedded_link l = re_match YOUTUBE_RE l"

definition EmbeddedContentGenerator_get_vector ::
    "Generator \<Rightarrow> (exn + 'v option) \<times> Generator" where
  "EmbeddedContentGenerator_get_vector g = (Inr None, g)"

text \<open>
  Inside the \<open>try\<close>, \<open>self.article.article_type.value\<close> is evaluated before
  \<open>yt_match.group(5)\<close>; only \<open>IndexError\<close> is caught.
\<close>

definition EmbeddedContentGenerator_generate :: "Generator \<Rightarrow> generated" where
  "EmbeddedContentGenerator_generate g =
     (let a = article g
      in case re_match YOUTUBE_RE (link a) of
           None \<Rightarrow> (Inr (True, []), g)
         | Some yt_match \<Rightarrow>
             (case article_type a of
                None \<Rightarrow> (Inl AttributeError, g)
              | Some t \<Rightarrow>
                  (case group yt_match 5 of
                     Inl error \<Rightarrow>
                       if error = IndexError then (Inr (True, []), g) else (Inl error, g)
                   | Inr video_id \<Rightarrow>
                       (Inr (True, [(''type'', Str (ArticleType_value t)),
                                    (''player'', Str ''youtube''),
                                    (''videoId'', video_id)]), g))))"

subsection \<open>Truncated content\<close>

text \<open>
  The \<open>try\<close> block sets \<open>content['content']\<close>, then \<open>content['link']\<close>, then
  \<open>success\<close>; whatever it raises is caught and logged.
\<close>

definition TruncatedContentGenerator_generate :: "'v env \<Rightarrow> Generator \<Rightarrow> generated" where
  "TruncatedContentGenerator_generate e g =
     (let g1 = (if page g = None then snd (get_goose e g) else g);
          content0 = [(''type'', Str ''fetched'')];
          tried = (case from_goose_to_html g1 of
                     Inl error \<Rightarrow> (False, content0)
                   | Inr markup \<Rightarrow>
                       (case page g1 of
                          None \<Rightarrow> (False, dict_set content0 ''content'' (Str markup))
                        | Some p \<Rightarrow>
                            (True, dict_set (dict_set content0 ''content'' (Str markup))
                                            ''link'' (Str (final_url p)))));
          success = fst tried;
          content1 = snd tried;
          content2 = (if success \<and> truthy (comments (article g))
                      then dict_set content1 ''comments''
                             (case comments (article g) of Some c \<Rightarrow> Str c | None \<Rightarrow> PyNone)
                      else content1)
      in (Inr (success, content2), g1))"

subsection \<open>Reddit\<close>

text \<open>
  The property \<open>is_pure_reddit_post\<close>. It is a plain \<open>property\<close>, evaluated at every
  access. The name \<open>requests\<close> is looked up in the module's namespace before the
  request is made; whatever the \<open>try\<close> block raises gives \<open>False\<close>.
\<close>

definition is_pure_reddit_post :: "'v env \<Rightarrow> Generator \<Rightarrow> bool \<times> Generator" where
  "is_pure_reddit_post e g =
     (let a = article g;
          g1 = g\<lparr>trace := trace g @ [PureRedditCheck]\<rparr>
      in if article_type a \<noteq> None then (False, g1)
         else if comments a = Some (link a) then (True, g1)
         else (case (case load_global ''requests'' of
                       Inl error \<Rightarrow> Inl error
                     | Inr _ \<Rightarrow> http_head e (comments a)) of
                 Inl error \<Rightarrow> (False, g1)
               | Inr url \<Rightarrow> if link a = url then (True, g1) else (False, g1)))"

definition RedditContentGenerator_get_vector ::
    "'v env \<Rightarrow> Generator \<Rightarrow> (exn + 'v option) \<times> Generator" where
  "RedditContentGenerator_get_vector e g =
     (case is_pure_reddit_post e g of
        (pure, g1) \<Rightarrow> if \<not> pure then ContentGenerator_get_vector e g1 else (Inr None, g1))"

definition RedditContentGenerator_generate :: "'v env \<Rightarrow> Generator \<Rightarrow> generated" where
  "RedditContentGenerator_generate e g =
     (case is_pure_reddit_post e g of
        (pure, g1) \<Rightarrow>
          if \<not> pure then TruncatedContentGenerator_generate e g1 else (Inr (False, []), g1))"

subsection \<open>Method resolution\<close>

text \<open>\<open>g.generate()\<close> and \<open>g.get_vector()\<close>, resolved on the class of the instance.\<close>

definition generate :: "'v env \<Rightarrow> Generator \<Rightarrow> generated" where
  "generate e g =
     (case cls g of
        ContentGenerator \<Rightarrow> ContentGenerator_generate g
      | ImageContentGenerator \<Rightarrow> ImageContentGenerator_generate g
      | EmbeddedContentGenerator \<Rightarrow> EmbeddedContentGenerator_generate g
      | TruncatedContentGenerator \<Rightarrow> TruncatedContentGenerator_generate e g
      | RedditContentGenerator \<Rightarrow> RedditContentGenerator_generate e g)"

definition get_vector :: "'v env \<Rightarrow> Generator \<Rightarrow> (exn + 'v option) \<times> Generator" where
  "get_vector e g =
     (case cls g of
        ContentGenerator \<Rightarrow> ContentGenerator_get_vector e g
      | ImageContentGenerator \<Rightarrow> ImageContentGenerator_get_vector g
      | EmbeddedContentGenerator \<Rightarrow> EmbeddedContentGenerator_get_vector g
      | TruncatedContentGenerator \<Rightarrow> ContentGenerator_get_vector e g
      | RedditContentGenerator \<Rightarrow> RedditContentGenerator_get_vector e g)"

subsection \<open>The cache of the dispatcher\<close>

text \<open>
  \<open>functools.lru_cache()\<close> called without arguments keeps at most 128 results, keyed by
  the argument. The cache is listed from the most recently used entry to the least
  recently used one; a hit moves its entry to the front, and a miss on a full cache
  drops the last entry. An article object is identified with its record, which holds
  its identifier. The instances live in \<open>heap\<close>, and an instance is known by its
  position there.
\<close>

definition lru_maxsize :: nat where
  "lru_maxsize = 128"

record process =
  cache :: "(Article \<times> nat) list"
  heap :: "Generator list"

definition start :: process where
  "start = \<lparr>cache = [], heap = []\<rparr>"

definition get_content_generator :: "process \<Rightarrow> Article \<Rightarrow> nat \<times> process" where
  "get_content_generator ps a =
     (case map_of (cache ps) a of
        Some ref \<Rightarrow> (ref, ps\<lparr>cache := (a, ref) # filter (\<lambda>kv. fst kv \<noteq> a) (cache ps)\<rparr>)
      | None \<Rightarrow>
          (let ref = length (heap ps);
               kept = (if length (cache ps) \<ge> lru_maxsize then butlast (cache ps)
                       else cache ps)
           in (ref, \<lparr>cache = (a, ref) # kept,
                     heap = heap ps @ [get_content_generator_wrapped a]\<rparr>)))"

text \<open>A run of calls, one article after the other; the references returned, in order.\<close>

fun calls :: "process \<Rightarrow> Article list \<Rightarrow> nat list \<times> process" where
  "calls ps [] = ([], ps)"
| "calls ps (a # as) =
     (case get_content_generator ps a of
        (ref, ps1) \<Rightarrow> (case calls ps1 as of (refs, ps2) \<Rightarrow> (ref # refs, ps2)))"

subsection \<open>Invariant of the cache, and sample articles\<close>

text \<open>
  Every cached reference points to an instance of the class the dispatcher chooses for
  the cached article, built for that article.
\<close>


definition cache_ok :: "process \<Rightarrow> bool" where
  "cache_ok ps =
     (\<forall>kv \<in> set (cache ps).
        snd kv < length (heap ps)
        \<and> cls (heap ps ! snd kv) = cls (get_content_generator_wrapped (fst kv))
        \<and> article (heap ps ! snd kv) = fst kv)"

definition image_on_reddit :: Article where
  "image_on_reddit =
     \<lparr>article_id = 1, link = ''https://i.redd.it/cat.png'', title = Some ''A <cat>'',
      content = Some '''', comments = Some ''https://www.reddit.com/r/cats/comments/1/'',
      article_type = Some ArticleType_image,
      feed = \<lparr>feed_type = Some FeedType_reddit, truncated_content = True\<rparr>\<rparr>"

definition reddit_feed :: Feed where
  "reddit_feed = \<lparr>feed_type = Some FeedType_reddit, truncated_content = False\<rparr>"

definition crosspost :: Article where
  "crosspost =
     \<lparr>article_id = 2, link = ''https://example.org/story'', title = Some ''A story'',
      content = Some ''summary'',
      comments = Some ''https://www.reddit.com/r/news/comments/2/'',
      article_type = None, feed = reddit_feed\<rparr>"

definition self_post :: Article where
  "self_post =
     \<lparr>article_id = 3, link = ''https://www.reddit.com/r/news/comments/3/'',
      title = Some ''A question'', content = Some ''text'',
      comments = Some ''https://www.reddit.com/r/news/comments/3/'',
      article_type = None, feed = reddit_feed\<rparr>"

definition blank_image :: Article where
  "blank_image =
     \<lparr>article_id = 4, link = ''https://example.org/cat.png'', title = None,
      content = None, comments = None, article_type = Some ArticleType_image,
      feed = \<lparr>feed_type = None, truncated_content = False\<rparr>\<rparr>"

text \<open>A world without network in which the comments page of \<open>crosspost\<close> redirects to its link.\<close>

definition redirecting :: "unit env" where
  "redirecting =
     \<lparr>goose_extract = (\<lambda>l. Inl FetchError),
      to_vector = (\<lambda>infos p. ()),
      http_head = (\<lambda>url. Inr ''https://example.org/story'')\<rparr>"

subsection \<open>A sample page and a world that serves it\<close>

definition story_page :: Page where
  "story_page =
     \<lparr>opengraph = [(''locale'', ''en_GB'')], meta_lang = Some ''en'',
      final_url = ''https://example.org/story?ref=feed'',
      meta_keywords = ''news, story'', tags = [''press''], page_title = ''A story'',
      top_node = Some (Element (Inr ''<p>Hello</p>'')
                        (Some (Element (Inr ''<p>World</p>'') None)))\<rparr>"

definition truncated_story :: Article where
  "truncated_story =
     \<lparr>article_id = 5, link = ''https://example.org/story'', title = Some ''A story'',
      content = Some ''Hello'', comments = Some ''https://example.org/story#comments'',
      article_type = None, feed = \<lparr>feed_type = None, truncated_content = True\<rparr>\<rparr>"

text \<open>A world in which the link of the story can be fetched, and nothing else.\<close>

definition online :: "unit env" where
  "online =
     \<lparr>goose_extract =
        (\<lambda>l. if l = ''https://example.org/story'' then Inr story_page else Inl FetchError),
      to_vector = (\<lambda>infos p. ()),
      http_head = (\<lambda>url. Inl FetchError)\<rparr>"

subsection \<open>Sample articles with an embedded type\<close>

definition video :: Article where
  "video =
     \<lparr>article_id = 6, link = ''https://www.youtube.com/watch?v=dQw4w9WgXcQ'',
      title = Some ''A video'', content = Some '''', comments = None,
      article_type = Some ArticleType_embedded,
      feed = \<lparr>feed_type = None, truncated_content = False\<rparr>\<rparr>"

definition other_video :: Article where
  "other_video = video\<lparr>article_id := 7, link := ''https://vimeo.com/76979871''\<rparr>"

subsection \<open>Articles by number\<close>

definition numbered :: "nat \<Rightarrow> Article" where
  "numbered n =
     \<lparr>article_id = n, link = [], title = None, content = None, comments = None,
      article_type = None, feed = \<lparr>feed_type = None, truncated_content = False\<rparr>\<rparr>"

definition crowd :: "Article list" where
  "crowd = map numbered [1 ..< 129]"

section \<open>Properties\<close>

subsection \<open>The registry and the dispatcher\<close>

lemma CONTENT_GENERATORS_eq:
  "CONTENT_GENERATORS =
     [FKey FeedType_reddit \<mapsto> RedditContentGenerator,
      AKey ArticleType_embedded \<mapsto> EmbeddedContentGenerator,
      AKey ArticleType_image \<mapsto> ImageContentGenerator]"
  by (rule ext) (simp add: CONTENT_GENERATORS_def feed_mapping_def)

lemma registry_article_key:
  "CONTENT_GENERATORS (AKey t) =
     (if t = ArticleType_image then Some ImageContentGenerator
      else if t = ArticleType_embedded then Some EmbeddedContentGenerator else None)"
  by (simp add: CONTENT_GENERATORS_eq)

lemma registry_feed_key:
  "CONTENT_GENERATORS (FKey t) =
     (if t = FeedType_reddit then Some RedditContentGenerator else None)"
  by (simp add: CONTENT_GENERATORS_eq)

lemma wrapped_class:
  "get_content_generator_wrapped a =
     init (if article_type a = Some ArticleType_image then ImageContentGenerator
           else if article_type a = Some ArticleType_embedded then EmbeddedContentGenerator
           else if feed_type (feed a) = Some FeedType_reddit then RedditContentGenerator
           else if truncated_content (feed a) then TruncatedContentGenerator
           else ContentGenerator) a"
  by (simp add: get_content_generator_wrapped_def registry_article_key registry_feed_key
      split: option.splits)

lemma cache_ok_step:
  assumes "cache_ok ps" and "get_content_generator ps a = (r, ps')"
  shows "cache_ok ps' \<and> r < length (heap ps')
         \<and> cls (heap ps' ! r) = cls (get_content_generator_wrapped a)
         \<and> article (heap ps' ! r) = a"
proof (cases "map_of (cache ps) a")
  case None
  then have r: "r = length (heap ps)"
    and ps': "ps' = \<lparr>cache = (a, r) # (if length (cache ps) \<ge> lru_maxsize
                                        then butlast (cache ps) else cache ps),
                     heap = heap ps @ [get_content_generator_wrapped a]\<rparr>"
    using assms(2) by (auto simp: get_content_generator_def Let_def)
  have sub: "set (if length (cache ps) \<ge> lru_maxsize then butlast (cache ps) else cache ps)
              \<subseteq> set (cache ps)"
    by (auto dest: in_set_butlastD)
  have new: "article (get_content_generator_wrapped a) = a"
    by (simp add: wrapped_class init_def)
  show ?thesis
    using assms(1) sub new unfolding cache_ok_def ps' r
    by (auto simp: nth_append)
next
  case (Some ref)
  then have r: "r = ref"
    and ps': "ps' = ps\<lparr>cache := (a, ref) # filter (\<lambda>kv. fst kv \<noteq> a) (cache ps)\<rparr>"
    using assms(2) by (auto simp: get_content_generator_def)
  from Some have "(a, ref) \<in> set (cache ps)" by (rule map_of_SomeD)
  then show ?thesis
    using assms(1) unfolding cache_ok_def ps' r by auto
qed

text \<open>
  C1. The dispatcher chooses one class per article, in this order: the class registered
  for the article's type; else the class registered for the type of its feed; else
  \<open>TruncatedContentGenerator\<close> when the feed has truncated content; else the base class.
  The registry holds the image, embedded and reddit classes, so that an image article of
  a reddit feed gets the image class. The cached dispatcher returns an instance of that
  class for that article.
\<close>

theorem get_content_generator_precedence:
  "get_content_generator_wrapped a =
     init (if article_type a = Some ArticleType_image then ImageContentGenerator
           else if article_type a = Some ArticleType_embedded then EmbeddedContentGenerator
           else if feed_type (feed a) = Some FeedType_reddit then RedditContentGenerator
           else if truncated_content (feed a) then TruncatedContentGenerator
           else ContentGenerator) a
   \<and> (\<forall>t c. article_type a = Some t \<and> CONTENT_GENERATORS (AKey t) = Some c
          \<longrightarrow> get_content_generator_wrapped a = init c a)
   \<and> (\<forall>t c. (article_type a = None \<or> CONTENT_GENERATORS (AKey (the (article_type a))) = None)
          \<and> feed_type (feed a) = Some t \<and> CONTENT_GENERATORS (FKey t) = Some c
          \<longrightarrow> get_content_generator_wrapped a = init c a)
   \<and> ((article_type a = None \<or> CONTENT_GENERATORS (AKey (the (article_type a))) = None)
      \<and> (feed_type (feed a) = None \<or> CONTENT_GENERATORS (FKey (the (feed_type (feed a)))) = None)
          \<longrightarrow> get_content_generator_wrapped a =
              init (if truncated_content (feed a) then TruncatedContentGenerator
                    else ContentGenerator) a)
   \<and> (\<forall>ps r ps'. cache_ok ps \<and> get_content_generator ps a = (r, ps')
          \<longrightarrow> cache_ok ps' \<and> r < length (heap ps')
              \<and> article (heap ps' ! r) = a
              \<and> cls (heap ps' ! r) = cls (get_content_generator_wrapped a))"
proof (intro conjI allI impI)
  show "get_content_generator_wrapped a =
     init (if article_type a = Some ArticleType_image then ImageContentGenerator
           else if article_type a = Some ArticleType_embedded then EmbeddedContentGenerator
           else if feed_type (feed a) = Some FeedType_reddit then RedditContentGenerator
           else if truncated_content (feed a) then TruncatedContentGenerator
           else ContentGenerator) a"
    by (rule wrapped_class)
qed (auto simp: get_content_generator_wrapped_def dest: cache_ok_step split: option.splits)

theorem get_content_generator_precedence_witness:
  "cache_ok start
   \<and> article_type image_on_reddit = Some ArticleType_image
   \<and> feed_type (feed image_on_reddit) = Some FeedType_reddit
   \<and> CONTENT_GENERATORS (AKey ArticleType_image) = Some ImageContentGenerator
   \<and> get_content_generator_wrapped image_on_reddit = init ImageContentGenerator image_on_reddit
   \<and> cls (heap (snd (get_content_generator start image_on_reddit))
           ! fst (get_content_generator start image_on_reddit)) = ImageContentGenerator"
proof -
  have ok: "cache_ok start" by (simp add: cache_ok_def start_def)
  have reg: "CONTENT_GENERATORS (AKey ArticleType_image) = Some ImageContentGenerator"
    by (simp add: registry_article_key)
  have ty: "article_type image_on_reddit = Some ArticleType_image"
    by (simp add: image_on_reddit_def)
  note P = get_content_generator_precedence [of image_on_reddit]
  from P ty reg have w: "get_content_generator_wrapped image_on_reddit
      = init ImageContentGenerator image_on_reddit" by blast
  obtain r ps' where call: "get_content_generator start image_on_reddit = (r, ps')"
    by (cases "get_content_generator start image_on_reddit")
  from P ok call have "cls (heap ps' ! r) = cls (get_content_generator_wrapped image_on_reddit)"
    by blast
  with w call ok reg ty show ?thesis
    by (simp add: init_def image_on_reddit_def)
qed

subsection \<open>Reddit: the pure-post test\<close>

lemma requests_unbound: "load_global ''requests'' = Inl NameError"
  by (simp add: load_global_def module_globals_def)

lemma is_pure_value:
  "fst (is_pure_reddit_post e g) =
     (article_type (article g) = None \<and> comments (article g) = Some (link (article g)))"
  by (simp add: is_pure_reddit_post_def Let_def requests_unbound)

lemma is_pure_state:
  "snd (is_pure_reddit_post e g) = g\<lparr>trace := trace g @ [PureRedditCheck]\<rparr>"
  by (simp add: is_pure_reddit_post_def Let_def requests_unbound)

text \<open>
  C10. The name \<open>requests\<close> is not bound in the module, so looking it up raises
  \<open>NameError\<close>, which the \<open>except\<close> clause swallows: an article without type whose link
  differs from its comments address is never a pure post, and \<open>is_pure_reddit_post\<close> holds
  exactly when the article has no type and its link equals its comments address.
\<close>

theorem is_pure_reddit_post_requests_unbound:
  "load_global ''requests'' = Inl NameError
   \<and> (article_type (article g) = None \<and> comments (article g) \<noteq> Some (link (article g))
        \<longrightarrow> fst (is_pure_reddit_post e g) = False)
   \<and> fst (is_pure_reddit_post e g) =
        (article_type (article g) = None \<and> comments (article g) = Some (link (article g)))"
  by (simp add: is_pure_value requests_unbound)

theorem is_pure_reddit_post_requests_unbound_witness:
  "article_type (article (init RedditContentGenerator crosspost)) = None
   \<and> comments (article (init RedditContentGenerator crosspost))
       \<noteq> Some (link (article (init RedditContentGenerator crosspost)))
   \<and> fst (is_pure_reddit_post redirecting (init RedditContentGenerator crosspost)) = False
   \<and> fst (is_pure_reddit_post redirecting (init RedditContentGenerator self_post)) = True"
  using is_pure_reddit_post_requests_unbound
          [of "init RedditContentGenerator crosspost" redirecting]
        is_pure_reddit_post_requests_unbound
          [of "init RedditContentGenerator self_post" redirecting]
  by (simp add: init_def crosspost_def self_post_def)

text \<open>
  C3. The claim asks \<open>is_pure_reddit_post\<close> to hold also when a HEAD request on the
  comments address ends at the article's link. For \<open>crosspost\<close>, an article of a reddit
  feed without type, in a world where that request would end at its link, the property
  is false.
\<close>

theorem is_pure_reddit_post_misses_redirect:
  "cls (get_content_generator_wrapped crosspost) = RedditContentGenerator
   \<and> article_type crosspost = None
   \<and> http_head redirecting (comments crosspost) = Inr (link crosspost)
   \<and> fst (is_pure_reddit_post redirecting (get_content_generator_wrapped crosspost)) = False"
  by (simp add: wrapped_class init_def crosspost_def reddit_feed_def redirecting_def
        is_pure_value)

subsection \<open>Images, and the exception that escapes\<close>

text \<open>
  C5. The claim asks \<open>generate()\<close> to succeed for every image article. For
  \<open>blank_image\<close>, an image article with neither title nor body, the dispatcher chooses the
  image class and \<open>generate()\<close> raises \<open>TypeError\<close> at \<open>text[:IMG_ALT_MAX_LENGTH]\<close>.
\<close>

theorem image_generate_without_text:
  "cls (get_content_generator_wrapped blank_image) = ImageContentGenerator
   \<and> ImageContentGenerator_generate (get_content_generator_wrapped blank_image)
       = (Inl TypeError, get_content_generator_wrapped blank_image)"
  by (simp add: wrapped_class init_def blank_image_def ImageContentGenerator_generate_def)

text \<open>
  C2. The claim asks that no exception escapes \<open>generate()\<close>. In every world, the
  generator the dispatcher returns for \<open>blank_image\<close> raises \<open>TypeError\<close> from
  \<open>generate()\<close>.
\<close>

theorem generate_lets_exception_escape:
  "fst (generate e (get_content_generator_wrapped blank_image)) = Inl TypeError"
  by (simp add: wrapped_class init_def blank_image_def generate_def
        ImageContentGenerator_generate_def)

subsection \<open>Truncated content and its reddit specialisation\<close>

lemma get_goose_page:
  "page (snd (get_goose e g)) =
     (case goose_extract e (link (article g)) of Inl error \<Rightarrow> page g | Inr p \<Rightarrow> Some p)"
  by (simp add: get_goose_def Let_def split: sum.splits option.splits)

lemma get_goose_article: "article (snd (get_goose e g)) = article g"
  by (simp add: get_goose_def Let_def split: sum.splits option.splits)

lemma get_goose_cls: "cls (snd (get_goose e g)) = cls g"
  by (simp add: get_goose_def Let_def split: sum.splits option.splits)

lemma get_goose_trace:
  "get_goose e (g\<lparr>trace := t\<rparr>) =
     (fst (get_goose e g),
      (snd (get_goose e g))\<lparr>trace := t @ [GooseExtract (link (article g))]\<rparr>)"
  by (simp add: get_goose_def Let_def split: sum.splits option.splits)

lemma from_goose_to_html_page:
  "from_goose_to_html g =
     (case page g of
        None \<Rightarrow> Inl AttributeError
      | Some p \<Rightarrow> (case top_node p of None \<Rightarrow> Inl TypeError | Some n \<Rightarrow> html_loop [] n))"
  by (simp add: from_goose_to_html_def)

lemma truncated_state:
  "snd (TruncatedContentGenerator_generate e g) =
     (if page g = None then snd (get_goose e g) else g)"
  by (simp add: TruncatedContentGenerator_generate_def Let_def)

lemma truncated_result:
  "fst (TruncatedContentGenerator_generate e g) =
     (case (case page g of
              Some p \<Rightarrow> Some p
            | None \<Rightarrow> (case goose_extract e (link (article g)) of
                         Inl error \<Rightarrow> None
                       | Inr p \<Rightarrow> Some p)) of
        None \<Rightarrow> Inr (False, [(''type'', Str ''fetched'')])
      | Some p \<Rightarrow>
          (case (case top_node p of None \<Rightarrow> Inl TypeError | Some n \<Rightarrow> html_loop [] n) of
             Inl error \<Rightarrow> Inr (False, [(''type'', Str ''fetched'')])
           | Inr markup \<Rightarrow>
               Inr (True, [(''type'', Str ''fetched''), (''content'', Str markup),
                           (''link'', Str (final_url p))]
                          @ (case comments (article g) of
                               None \<Rightarrow> []
                             | Some c \<Rightarrow> if c = [] then [] else [(''comments'', Str c)]))))"
proof (cases "page g")
  case None
  then show ?thesis
    by (simp add: TruncatedContentGenerator_generate_def Let_def from_goose_to_html_page
          get_goose_page split: sum.splits option.splits)
next
  case (Some p)
  then show ?thesis
    by (simp add: TruncatedContentGenerator_generate_def Let_def from_goose_to_html_page
          split: sum.splits option.splits)
qed

lemma truncated_ignores_trace:
  "fst (TruncatedContentGenerator_generate e (g\<lparr>trace := t\<rparr>))
     = fst (TruncatedContentGenerator_generate e g)"
  by (simp add: truncated_result cong: option.case_cong sum.case_cong)

lemma truncated_state_ignores_trace:
  "page (snd (TruncatedContentGenerator_generate e (g\<lparr>trace := t\<rparr>)))
     = page (snd (TruncatedContentGenerator_generate e g))
   \<and> extracted_infos (snd (TruncatedContentGenerator_generate e (g\<lparr>trace := t\<rparr>)))
     = extracted_infos (snd (TruncatedContentGenerator_generate e g))"
  by (simp add: truncated_state get_goose_trace)

lemma base_vector_ignores_trace:
  "fst (ContentGenerator_get_vector e (g\<lparr>trace := t\<rparr>)) = fst (ContentGenerator_get_vector e g)
   \<and> page (snd (ContentGenerator_get_vector e (g\<lparr>trace := t\<rparr>)))
       = page (snd (ContentGenerator_get_vector e g))
   \<and> extracted_infos (snd (ContentGenerator_get_vector e (g\<lparr>trace := t\<rparr>)))
       = extracted_infos (snd (ContentGenerator_get_vector e g))"
  by (simp add: ContentGenerator_get_vector_def Let_def get_goose_trace
        split: option.splits)

lemma reddit_generate_unfold:
  "RedditContentGenerator_generate e g =
     (if fst (is_pure_reddit_post e g)
      then (Inr (False, []), g\<lparr>trace := trace g @ [PureRedditCheck]\<rparr>)
      else TruncatedContentGenerator_generate e (g\<lparr>trace := trace g @ [PureRedditCheck]\<rparr>))"
  using is_pure_state [of e g]
  by (cases "is_pure_reddit_post e g") (simp add: RedditContentGenerator_generate_def)

lemma reddit_get_vector_unfold:
  "RedditContentGenerator_get_vector e g =
     (if fst (is_pure_reddit_post e g)
      then (Inr None, g\<lparr>trace := trace g @ [PureRedditCheck]\<rparr>)
      else ContentGenerator_get_vector e (g\<lparr>trace := trace g @ [PureRedditCheck]\<rparr>))"
  using is_pure_state [of e g]
  by (cases "is_pure_reddit_post e g") (simp add: RedditContentGenerator_get_vector_def)

lemma truncated_page_after:
  "page (snd (TruncatedContentGenerator_generate e g)) =
     (case page g of
        Some p \<Rightarrow> Some p
      | None \<Rightarrow> (case goose_extract e (link (article g)) of
                   Inl error \<Rightarrow> None
                 | Inr p \<Rightarrow> Some p))"
  by (simp add: truncated_state get_goose_page split: option.splits sum.splits)

text \<open>
  C4. For an instance of \<open>TruncatedContentGenerator\<close>, \<open>generate()\<close> never raises. When
  the page is there (already fetched, or fetched now) and its serialisation succeeds, the
  result is \<open>True\<close> with the content of type \<open>fetched\<close>, the markup, the link set to the
  final URL of the page, and the comments exactly when the article's comments are truthy.
  When the fetch or the serialisation fails, the result is \<open>False\<close> with the content
  \<open>{'type': 'fetched'}\<close>.
\<close>

theorem TruncatedContentGenerator_generate_result:
  assumes "cls g = TruncatedContentGenerator"
  shows "fst (generate e g) =
     (case (case page g of
              Some p \<Rightarrow> Some p
            | None \<Rightarrow> (case goose_extract e (link (article g)) of
                         Inl error \<Rightarrow> None
                       | Inr p \<Rightarrow> Some p)) of
        None \<Rightarrow> Inr (False, [(''type'', Str ''fetched'')])
      | Some p \<Rightarrow>
          (case (case top_node p of None \<Rightarrow> Inl TypeError | Some n \<Rightarrow> html_loop [] n) of
             Inl error \<Rightarrow> Inr (False, [(''type'', Str ''fetched'')])
           | Inr markup \<Rightarrow>
               Inr (True, [(''type'', Str ''fetched''), (''content'', Str markup),
                           (''link'', Str (final_url p))]
                          @ (case comments (article g) of
                               None \<Rightarrow> []
                             | Some c \<Rightarrow> if c = [] then [] else [(''comments'', Str c)]))))
   \<and> (\<forall>content. fst (generate e g) = Inr (True, content) \<longrightarrow>
         map_of content ''type'' = Some (Str ''fetched'')
         \<and> (\<exists>p. page (snd (generate e g)) = Some p
                \<and> map_of content ''link'' = Some (Str (final_url p)))
         \<and> (map_of content ''comments'' \<noteq> None) = truthy (comments (article g)))
   \<and> (\<forall>content. fst (generate e g) = Inr (False, content) \<longrightarrow>
         content = [(''type'', Str ''fetched'')])
   \<and> (\<exists>success content. fst (generate e g) = Inr (success, content))"
proof -
  define fetched where "fetched =
     (case page g of
        Some p \<Rightarrow> Some p
      | None \<Rightarrow> (case goose_extract e (link (article g)) of
                   Inl error \<Rightarrow> None
                 | Inr p \<Rightarrow> Some p))"
  have gen: "generate e g = TruncatedContentGenerator_generate e g"
    using assms by (simp add: generate_def)
  have pg: "page (snd (generate e g)) = fetched"
    unfolding gen fetched_def by (rule truncated_page_after)
  have res: "fst (generate e g) =
     (case fetched of
        None \<Rightarrow> Inr (False, [(''type'', Str ''fetched'')])
      | Some p \<Rightarrow>
          (case (case top_node p of None \<Rightarrow> Inl TypeError | Some n \<Rightarrow> html_loop [] n) of
             Inl error \<Rightarrow> Inr (False, [(''type'', Str ''fetched'')])
           | Inr markup \<Rightarrow>
               Inr (True, [(''type'', Str ''fetched''), (''content'', Str markup),
                           (''link'', Str (final_url p))]
                          @ (case comments (article g) of
                               None \<Rightarrow> []
                             | Some c \<Rightarrow> if c = [] then [] else [(''comments'', Str c)]))))"
    unfolding gen fetched_def by (rule truncated_result)
  have rest: "(\<forall>content. fst (generate e g) = Inr (True, content) \<longrightarrow>
         map_of content ''type'' = Some (Str ''fetched'')
         \<and> (\<exists>p. page (snd (generate e g)) = Some p
                \<and> map_of content ''link'' = Some (Str (final_url p)))
         \<and> (map_of content ''comments'' \<noteq> None) = truthy (comments (article g)))
   \<and> (\<forall>content. fst (generate e g) = Inr (False, content) \<longrightarrow>
         content = [(''type'', Str ''fetched'')])
   \<and> (\<exists>success content. fst (generate e g) = Inr (success, content))"
  proof (cases fetched)
    case None
    then show ?thesis by (auto simp: res)
  next
    case (Some p)
    show ?thesis
    proof (cases "case top_node p of None \<Rightarrow> Inl TypeError | Some n \<Rightarrow> html_loop [] n")
      case (Inl error)
      then show ?thesis using Some by (auto simp: res)
    next
      case (Inr markup)
      show ?thesis
      proof (cases "comments (article g)")
        case None
        then show ?thesis using Some Inr by (auto simp: res pg)
      next
        case (Some c)
        then show ?thesis using \<open>fetched = Some p\<close> Inr by (auto simp: res pg)
      qed
    qed
  qed
  from res rest show ?thesis unfolding fetched_def by (rule conjI)
qed

theorem TruncatedContentGenerator_generate_result_witness:
  "cls (get_content_generator_wrapped truncated_story) = TruncatedContentGenerator
   \<and> fst (generate online (get_content_generator_wrapped truncated_story)) =
       Inr (True, [(''type'', Str ''fetched''),
                   (''content'', Str ''<p>Hello</p><p>World</p>''),
                   (''link'', Str ''https://example.org/story?ref=feed''),
                   (''comments'', Str ''https://example.org/story#comments'')])
   \<and> fst (generate redirecting (get_content_generator_wrapped truncated_story)) =
       Inr (False, [(''type'', Str ''fetched'')])"
proof -
  have c: "cls (get_content_generator_wrapped truncated_story) = TruncatedContentGenerator"
    by (simp add: wrapped_class init_def truncated_story_def)
  show ?thesis
    using TruncatedContentGenerator_generate_result [OF c, of online, THEN conjunct1]
          TruncatedContentGenerator_generate_result [OF c, of redirecting, THEN conjunct1]
    by (simp add: c wrapped_class init_def truncated_story_def online_def redirecting_def
          story_page_def)
qed

text \<open>
  C7. For an instance of \<open>RedditContentGenerator\<close>: when the article is a pure post,
  \<open>generate()\<close> returns \<open>(False, {})\<close>, \<open>get_vector()\<close> returns nothing and no page is
  fetched; otherwise both return what the inherited methods return and leave the same
  page and extracted information behind. An article without type whose link equals its
  comments address is a pure post.
\<close>

theorem RedditContentGenerator_short_circuit:
  assumes "cls g = RedditContentGenerator"
  shows "(fst (is_pure_reddit_post e g) \<longrightarrow>
            fst (generate e g) = Inr (False, [])
            \<and> fst (get_vector e g) = Inr None
            \<and> page (snd (generate e g)) = page g
            \<and> page (snd (get_vector e g)) = page g)
       \<and> (\<not> fst (is_pure_reddit_post e g) \<longrightarrow>
            fst (generate e g) = fst (TruncatedContentGenerator_generate e g)
            \<and> page (snd (generate e g)) = page (snd (TruncatedContentGenerator_generate e g))
            \<and> extracted_infos (snd (generate e g))
                = extracted_infos (snd (TruncatedContentGenerator_generate e g))
            \<and> fst (get_vector e g) = fst (ContentGenerator_get_vector e g)
            \<and> page (snd (get_vector e g)) = page (snd (ContentGenerator_get_vector e g))
            \<and> extracted_infos (snd (get_vector e g))
                = extracted_infos (snd (ContentGenerator_get_vector e g)))
       \<and> (article_type (article g) = None \<and> comments (article g) = Some (link (article g))
            \<longrightarrow> fst (is_pure_reddit_post e g) \<and> fst (generate e g) = Inr (False, []))"
proof -
  have gen: "generate e g = RedditContentGenerator_generate e g"
    and vec: "get_vector e g = RedditContentGenerator_get_vector e g"
    using assms by (simp_all add: generate_def get_vector_def)
  show ?thesis
    unfolding gen vec reddit_generate_unfold reddit_get_vector_unfold
    by (simp add: truncated_ignores_trace truncated_state_ignores_trace
          base_vector_ignores_trace is_pure_value)
qed

theorem RedditContentGenerator_short_circuit_witness:
  "cls (get_content_generator_wrapped self_post) = RedditContentGenerator
   \<and> fst (is_pure_reddit_post online (get_content_generator_wrapped self_post))
   \<and> fst (generate online (get_content_generator_wrapped self_post)) = Inr (False, [])
   \<and> fst (get_vector online (get_content_generator_wrapped self_post)) = Inr None
   \<and> cls (get_content_generator_wrapped crosspost) = RedditContentGenerator
   \<and> \<not> fst (is_pure_reddit_post online (get_content_generator_wrapped crosspost))
   \<and> fst (generate online (get_content_generator_wrapped crosspost))
       = fst (TruncatedContentGenerator_generate online
                (get_content_generator_wrapped crosspost))"
proof -
  have s: "cls (get_content_generator_wrapped self_post) = RedditContentGenerator"
    and c: "cls (get_content_generator_wrapped crosspost) = RedditContentGenerator"
    by (simp_all add: wrapped_class init_def self_post_def crosspost_def reddit_feed_def)
  have ps: "fst (is_pure_reddit_post online (get_content_generator_wrapped self_post))"
    and pc: "\<not> fst (is_pure_reddit_post online (get_content_generator_wrapped crosspost))"
    by (simp_all add: is_pure_value wrapped_class init_def self_post_def crosspost_def)
  show ?thesis
    using RedditContentGenerator_short_circuit [OF s, of online]
          RedditContentGenerator_short_circuit [OF c, of online] ps pc s c
    by simp
qed

subsection \<open>Embedded videos\<close>

lemma rmatch_dom:
  "st' \<in> set (rmatch inp r st) \<Longrightarrow> dom (snd st) \<subseteq> dom (snd st')"
proof (induction r arbitrary: st st')
  case (Seq r1 r2)
  from Seq.prems obtain mid where "mid \<in> set (rmatch inp r1 st)"
    and "st' \<in> set (rmatch inp r2 mid)" by auto
  with Seq.IH show ?case by blast
next
  case (Dot)
  then show ?case by (auto split: list.splits if_splits)
next
  case (Group n r)
  from Group.prems obtain x where x: "x \<in> set (rmatch inp r st)"
    and st': "st' = (fst x, (snd x)(n \<mapsto> take (length (fst st) - length (fst x)) (fst st)))"
    by auto
  from Group.IH [OF x] show ?case unfolding st' by auto
next
  case (Alt r1 r2)
  from Alt.prems have "st' \<in> set (rmatch inp r1 st) \<or> st' \<in> set (rmatch inp r2 st)"
    by simp
  with Alt.IH show ?case by blast
next
  case (Opt r)
  from Opt.prems have "st' \<in> set (rmatch inp r st) \<or> st' = st" by auto
  with Opt.IH show ?case by blast
qed (auto split: if_splits)

lemma rmatch_Group_dom: "st' \<in> set (rmatch inp (Group n r) st) \<Longrightarrow> n \<in> dom (snd st')"
  by auto

lemma rmatch_Seq_iff:
  "st' \<in> set (rmatch inp (Seq r1 r2) st)
     \<longleftrightarrow> (\<exists>mid \<in> set (rmatch inp r1 st). st' \<in> set (rmatch inp r2 mid))"
  by auto

lemma YOUTUBE_RE_group5:
  assumes "st' \<in> set (rmatch inp YOUTUBE_RE st)"
  shows "5 \<in> dom (snd st')"
proof -
  from assms obtain m4 m5
    where m5: "m5 \<in> set (rmatch inp (Group 5 (Plus Word_or_dash)) m4)"
      and rest: "st' \<in> set (rmatch inp (Seq (Opt (Group 6 (Plus Non_space))) Eol) m5)"
    unfolding YOUTUBE_RE_def rmatch_Seq_iff by blast
  from m5 have "5 \<in> dom (snd m5)" by (rule rmatch_Group_dom)
  with rmatch_dom [OF rest] show ?thesis by blast
qed

lemma re_match_YOUTUBE_RE_group5:
  assumes "re_match YOUTUBE_RE l = Some m"
  shows "\<exists>s. mo_groups m 5 = Some s \<and> group m 5 = Inr (Str s)"
proof -
  from assms obtain st rest where r: "rmatch l YOUTUBE_RE (l, Map.empty) = st # rest"
    and m: "m = \<lparr>mo_re = YOUTUBE_RE, mo_groups = snd st\<rparr>"
    by (auto simp: re_match_def split: list.splits)
  from r have "st \<in> set (rmatch l YOUTUBE_RE (l, Map.empty))" by simp
  then have "5 \<in> dom (snd st)" by (rule YOUTUBE_RE_group5)
  then obtain s where s: "snd st 5 = Some s" by auto
  have "groups YOUTUBE_RE = 6" by (simp add: YOUTUBE_RE_def)
  with s m show ?thesis by (simp add: group_def)
qed

lemma video_match:
  "map_option (\<lambda>m. mo_groups m 5) (re_match YOUTUBE_RE (link video))
     = Some (Some ''dQw4w9WgXcQ'')"
  unfolding video_def by code_simp

lemma other_video_match: "re_match YOUTUBE_RE (link other_video) = None"
  unfolding other_video_def video_def by code_simp

text \<open>
  C6. For an instance of \<open>EmbeddedContentGenerator\<close> on an article of type
  \<open>embedded\<close>: when the link does not match \<open>YOUTUBE_RE\<close>, \<open>generate()\<close> returns
  \<open>(True, {})\<close>; when it matches, the fifth group took part in the match and
  \<open>generate()\<close> returns \<open>True\<close> with the content of type \<open>embedded\<close>, the player
  \<open>youtube\<close> and the video id equal to that group. The instance is left as it was.
\<close>

theorem EmbeddedContentGenerator_generate_result:
  assumes "cls g = EmbeddedContentGenerator"
    and "article_type (article g) = Some ArticleType_embedded"
  shows "(re_match YOUTUBE_RE (link (article g)) = None \<longrightarrow>
            generate e g = (Inr (True, []), g))
       \<and> (\<forall>m. re_match YOUTUBE_RE (link (article g)) = Some m \<longrightarrow>
            (\<exists>s. mo_groups m 5 = Some s \<and> group m 5 = Inr (Str s)
                \<and> generate e g =
                    (Inr (True, [(''type'', Str ''embedded''), (''player'', Str ''youtube''),
                                 (''videoId'', Str s)]), g)))"
proof (intro conjI allI impI)
  assume "re_match YOUTUBE_RE (link (article g)) = None"
  then show "generate e g = (Inr (True, []), g)"
    using assms by (simp add: generate_def EmbeddedContentGenerator_generate_def)
next
  fix m assume m: "re_match YOUTUBE_RE (link (article g)) = Some m"
  then obtain s where s: "mo_groups m 5 = Some s" "group m 5 = Inr (Str s)"
    using re_match_YOUTUBE_RE_group5 by blast
  have "generate e g =
          (Inr (True, [(''type'', Str ''embedded''), (''player'', Str ''youtube''),
                       (''videoId'', Str s)]), g)"
    using assms m s by (simp add: generate_def EmbeddedContentGenerator_generate_def)
  with s show "\<exists>s. mo_groups m 5 = Some s \<and> group m 5 = Inr (Str s)
                \<and> generate e g =
                    (Inr (True, [(''type'', Str ''embedded''), (''player'', Str ''youtube''),
                                 (''videoId'', Str s)]), g)"
    by blast
qed

theorem EmbeddedContentGenerator_generate_result_witness:
  "cls (get_content_generator_wrapped video) = EmbeddedContentGenerator
   \<and> article_type (article (get_content_generator_wrapped video)) = Some ArticleType_embedded
   \<and> generate online (get_content_generator_wrapped video) =
       (Inr (True, [(''type'', Str ''embedded''), (''player'', Str ''youtube''),
                    (''videoId'', Str ''dQw4w9WgXcQ'')]), get_content_generator_wrapped video)
   \<and> cls (get_content_generator_wrapped other_video) = EmbeddedContentGenerator
   \<and> re_match YOUTUBE_RE (link (article (get_content_generator_wrapped other_video))) = None
   \<and> generate online (get_content_generator_wrapped other_video) =
       (Inr (True, []), get_content_generator_wrapped other_video)"
proof -
  let ?g = "get_content_generator_wrapped video"
  let ?h = "get_content_generator_wrapped other_video"
  have c: "cls ?g = EmbeddedContentGenerator" "cls ?h = EmbeddedContentGenerator"
    and t: "article_type (article ?g) = Some ArticleType_embedded"
           "article_type (article ?h) = Some ArticleType_embedded"
    and a: "article ?g = video" "article ?h = other_video"
    by (simp_all add: wrapped_class init_def video_def other_video_def)
  from video_match obtain m where m: "re_match YOUTUBE_RE (link (article ?g)) = Some m"
    and s: "mo_groups m 5 = Some ''dQw4w9WgXcQ''"
    unfolding a by auto
  from EmbeddedContentGenerator_generate_result [OF c(1) t(1), of online] m s
  have 1: "generate online ?g =
       (Inr (True, [(''type'', Str ''embedded''), (''player'', Str ''youtube''),
                    (''videoId'', Str ''dQw4w9WgXcQ'')]), ?g)"
    by auto
  have n: "re_match YOUTUBE_RE (link (article ?h)) = None"
    unfolding a by (rule other_video_match)
  from EmbeddedContentGenerator_generate_result [OF c(2) t(2), of online] n
  have 2: "generate online ?h = (Inr (True, []), ?h)" by blast
  from c t 1 n 2 show ?thesis by blast
qed

subsection \<open>The cache of the dispatcher\<close>

lemma calls_snd_Cons:
  "snd (calls ps (b # bs)) = snd (calls (snd (get_content_generator ps b)) bs)"
  by (simp split: prod.splits)

lemma distinct_keys_filter:
  "distinct (map fst xs) \<Longrightarrow> distinct (map fst (filter P xs))"
  by (rule distinct_map_filter)

lemma distinct_keys_butlast:
  "distinct (map fst xs) \<Longrightarrow> distinct (map fst (butlast xs))"
  by (simp add: map_butlast distinct_butlast)

lemma call_hit:
  assumes "map_of (cache ps) a = Some r"
  shows "get_content_generator ps a =
           (r, ps\<lparr>cache := (a, r) # filter (\<lambda>kv. fst kv \<noteq> a) (cache ps)\<rparr>)"
  using assms by (simp add: get_content_generator_def)

lemma call_miss:
  assumes "map_of (cache ps) a = None"
  shows "get_content_generator ps a =
           (length (heap ps),
            \<lparr>cache = (a, length (heap ps))
                       # (if length (cache ps) \<ge> lru_maxsize then butlast (cache ps)
                          else cache ps),
             heap = heap ps @ [get_content_generator_wrapped a]\<rparr>)"
  using assms by (simp add: get_content_generator_def Let_def)

lemma call_front:
  "\<exists>rest. cache (snd (get_content_generator ps a)) = (a, fst (get_content_generator ps a)) # rest"
  by (cases "map_of (cache ps) a") (simp_all add: call_hit call_miss)

lemma call_distinct:
  assumes "distinct (map fst (cache ps))"
  shows "distinct (map fst (cache (snd (get_content_generator ps a))))"
proof (cases "map_of (cache ps) a")
  case None
  then have notin: "a \<notin> fst ` set (cache ps)" by (simp add: map_of_eq_None_iff)
  have "a \<notin> fst ` set (butlast (cache ps))"
    using notin by (auto dest: in_set_butlastD)
  with None notin assms show ?thesis
    by (simp add: call_miss distinct_keys_butlast)
next
  case (Some r)
  with assms show ?thesis
    by (auto simp: call_hit distinct_keys_filter)
qed

lemma call_bounded:
  assumes "length (cache ps) \<le> lru_maxsize"
  shows "length (cache (snd (get_content_generator ps a))) \<le> lru_maxsize"
proof (cases "map_of (cache ps) a")
  case None
  with assms show ?thesis by (auto simp: call_miss lru_maxsize_def)
next
  case (Some r)
  then have "(a, r) \<in> set (cache ps)" by (rule map_of_SomeD)
  then have "length (filter (\<lambda>kv. fst kv \<noteq> a) (cache ps)) < length (cache ps)"
    by (intro length_filter_less [of "(a, r)"]) auto
  with Some assms show ?thesis by (simp add: call_hit)
qed

lemma calls_bounded:
  "length (cache ps) \<le> lru_maxsize \<Longrightarrow> length (cache (snd (calls ps bs))) \<le> lru_maxsize"
proof (induction bs arbitrary: ps)
  case Nil
  then show ?case by simp
next
  case (Cons b bs)
  from Cons.prems have "length (cache (snd (get_content_generator ps b))) \<le> lru_maxsize"
    by (rule call_bounded)
  then show ?case unfolding calls_snd_Cons by (rule Cons.IH)
qed

lemma map_of_middle:
  assumes "distinct (map fst (pre @ (a, r) # post))"
  shows "map_of (pre @ (a, r) # post) a = Some r"
proof -
  from assms have "a \<notin> fst ` set pre" by auto
  then have "map_of pre a = None" by (simp add: map_of_eq_None_iff)
  then show ?thesis by (simp add: map_add_def)
qed

lemma call_keeps:
  assumes c: "cache ps = pre @ (a, r) # post"
    and d: "distinct (map fst (cache ps))"
    and n: "Suc (length pre) < lru_maxsize"
  shows "\<exists>pre' post'. cache (snd (get_content_generator ps b)) = pre' @ (a, r) # post'
           \<and> length pre' \<le> Suc (length pre)"
proof (cases "map_of (cache ps) b")
  case None
  show ?thesis
  proof (cases "post = []")
    case True
    with c n have "\<not> length (cache ps) \<ge> lru_maxsize" by simp
    with None c have "cache (snd (get_content_generator ps b))
        = ((b, length (heap ps)) # pre) @ (a, r) # post"
      by (simp add: call_miss)
    then show ?thesis by (metis length_Cons le_refl)
  next
    case False
    then have "butlast (cache ps) = pre @ (a, r) # butlast post"
      by (simp add: c butlast_append)
    with None c have "cache (snd (get_content_generator ps b))
        = ((b, length (heap ps)) # pre)
          @ (a, r) # (if length (cache ps) \<ge> lru_maxsize then butlast post else post)"
      by (simp add: call_miss)
    then show ?thesis by (metis length_Cons le_refl)
  qed
next
  case (Some rb)
  show ?thesis
  proof (cases "b = a")
    case True
    from d have "map_of (cache ps) a = Some r" unfolding c by (rule map_of_middle)
    then have "cache (snd (get_content_generator ps b))
        = [] @ (a, r) # filter (\<lambda>kv. fst kv \<noteq> a) (cache ps)"
      by (simp add: call_hit True)
    then show ?thesis by (metis list.size(3) le0)
  next
    case False
    with Some c have "cache (snd (get_content_generator ps b))
        = ((b, rb) # filter (\<lambda>kv. fst kv \<noteq> b) pre)
          @ (a, r) # filter (\<lambda>kv. fst kv \<noteq> b) post"
      by (simp add: call_hit)
    moreover have "length ((b, rb) # filter (\<lambda>kv. fst kv \<noteq> b) pre) \<le> Suc (length pre)"
      by simp
    ultimately show ?thesis by blast
  qed
qed

lemma calls_keep:
  assumes "cache ps = pre @ (a, r) # post"
    and "distinct (map fst (cache ps))"
    and "length pre + length bs < lru_maxsize"
  shows "\<exists>pre' post'. cache (snd (calls ps bs)) = pre' @ (a, r) # post'
           \<and> distinct (map fst (cache (snd (calls ps bs))))"
  using assms
proof (induction bs arbitrary: ps pre post)
  case Nil
  then show ?case by auto
next
  case (Cons b bs)
  let ?ps1 = "snd (get_content_generator ps b)"
  from Cons.prems have "Suc (length pre) < lru_maxsize" by simp
  with Cons.prems obtain pre' post' where c1: "cache ?ps1 = pre' @ (a, r) # post'"
    and l1: "length pre' \<le> Suc (length pre)"
    using call_keeps by blast
  have d1: "distinct (map fst (cache ?ps1))"
    using Cons.prems(2) by (rule call_distinct)
  from l1 Cons.prems(3) have "length pre' + length bs < lru_maxsize" by simp
  from Cons.IH [OF c1 d1 this] show ?case unfolding calls_snd_Cons .
qed

text \<open>
  C8, as amended. The dispatcher is memoized by a cache of at most 128 entries keyed by
  the article: a call for an article, followed by fewer than 128 other calls, followed by
  a call for the same article returns the same instance and builds no new one; the cache
  never holds more than 128 entries.
\<close>

theorem get_content_generator_lru:
  assumes "distinct (map fst (cache ps))" and "length bs < lru_maxsize"
  shows "fst (get_content_generator (snd (calls (snd (get_content_generator ps a)) bs)) a)
           = fst (get_content_generator ps a)
       \<and> heap (snd (get_content_generator (snd (calls (snd (get_content_generator ps a)) bs)) a))
           = heap (snd (calls (snd (get_content_generator ps a)) bs))
       \<and> (length (cache ps) \<le> lru_maxsize \<longrightarrow>
            length (cache (snd (calls ps bs))) \<le> lru_maxsize)"
proof -
  let ?r = "fst (get_content_generator ps a)"
  let ?ps1 = "snd (get_content_generator ps a)"
  let ?ps2 = "snd (calls ?ps1 bs)"
  obtain rest where c1: "cache ?ps1 = [] @ (a, ?r) # rest"
    using call_front [of ps a] by auto
  have d1: "distinct (map fst (cache ?ps1))"
    using assms(1) by (rule call_distinct)
  from assms(2) have "length ([] :: (Article \<times> nat) list) + length bs < lru_maxsize" by simp
  from calls_keep [OF c1 d1 this]
  obtain pre' post' where c2: "cache ?ps2 = pre' @ (a, ?r) # post'"
    and d2: "distinct (map fst (cache ?ps2))" by blast
  from d2 have "map_of (cache ?ps2) a = Some ?r" unfolding c2 by (rule map_of_middle)
  then have "get_content_generator ?ps2 a =
      (?r, ?ps2\<lparr>cache := (a, ?r) # filter (\<lambda>kv. fst kv \<noteq> a) (cache ?ps2)\<rparr>)"
    by (rule call_hit)
  then show ?thesis by (simp add: calls_bounded)
qed

theorem get_content_generator_lru_witness:
  "distinct (map fst (cache start))
   \<and> length [numbered 1, numbered 2] < lru_maxsize
   \<and> length (cache start) \<le> lru_maxsize
   \<and> fst (get_content_generator
            (snd (calls (snd (get_content_generator start (numbered 0)))
                        [numbered 1, numbered 2])) (numbered 0))
       = fst (get_content_generator start (numbered 0))
   \<and> length (cache (snd (calls start [numbered 1, numbered 2]))) \<le> lru_maxsize"
proof -
  have d: "distinct (map fst (cache start))" by (simp add: start_def)
  have l: "length [numbered 1, numbered 2] < lru_maxsize" by (simp add: lru_maxsize_def)
  have b: "length (cache start) \<le> lru_maxsize" by (simp add: start_def)
  from get_content_generator_lru [OF d l, of "numbered 0"] d l b show ?thesis by blast
qed

text \<open>
  C8, as stated, fails: the cache evicts. After a call for article 0 and calls for 128
  other articles, a call for article 0 returns a new instance (reference 129, not 0).
\<close>

theorem get_content_generator_evicts:
  "fst (get_content_generator start (numbered 0)) = 0
   \<and> fst (get_content_generator (snd (calls start (numbered 0 # crowd))) (numbered 0)) = 129"
  unfolding crowd_def by code_simp

subsection \<open>What an instance keeps between calls\<close>

lemma get_goose_checks:
  "count_list (trace (snd (get_goose e g))) PureRedditCheck
     = count_list (trace g) PureRedditCheck"
  by (simp add: get_goose_def Let_def split: sum.splits option.splits)

lemma base_vector_state:
  "snd (ContentGenerator_get_vector e g) = (if page g = None then snd (get_goose e g) else g)"
  by (simp add: ContentGenerator_get_vector_def Let_def split: option.splits)

lemma image_state: "snd (ImageContentGenerator_generate g) = g"
  by (simp add: ImageContentGenerator_generate_def Let_def split: option.splits)

lemma embedded_state: "snd (EmbeddedContentGenerator_generate g) = g"
  by (simp add: EmbeddedContentGenerator_generate_def Let_def
        split: option.splits sum.splits)

lemma reddit_generate_state:
  "snd (RedditContentGenerator_generate e g) =
     (if fst (is_pure_reddit_post e g) \<or> page g \<noteq> None
      then g\<lparr>trace := trace g @ [PureRedditCheck]\<rparr>
      else snd (get_goose e (g\<lparr>trace := trace g @ [PureRedditCheck]\<rparr>)))"
  by (simp add: reddit_generate_unfold truncated_state)

lemma reddit_get_vector_state:
  "snd (RedditContentGenerator_get_vector e g) =
     (if fst (is_pure_reddit_post e g) \<or> page g \<noteq> None
      then g\<lparr>trace := trace g @ [PureRedditCheck]\<rparr>
      else snd (get_goose e (g\<lparr>trace := trace g @ [PureRedditCheck]\<rparr>)))"
  by (simp add: reddit_get_vector_unfold base_vector_state)

lemma generate_state_facts:
  "cls (snd (generate e g)) = cls g
   \<and> article (snd (generate e g)) = article g
   \<and> count_list (trace (snd (generate e g))) PureRedditCheck =
       (if cls g = RedditContentGenerator then Suc (count_list (trace g) PureRedditCheck)
        else count_list (trace g) PureRedditCheck)"
  by (cases "cls g")
     (simp_all add: generate_def ContentGenerator_generate_def image_state embedded_state
        truncated_state reddit_generate_state get_goose_cls get_goose_article
        get_goose_checks)

lemma get_vector_state_facts:
  "cls (snd (get_vector e g)) = cls g
   \<and> article (snd (get_vector e g)) = article g
   \<and> count_list (trace (snd (get_vector e g))) PureRedditCheck =
       (if cls g = RedditContentGenerator then Suc (count_list (trace g) PureRedditCheck)
        else count_list (trace g) PureRedditCheck)"
  by (cases "cls g")
     (simp_all add: get_vector_def ImageContentGenerator_get_vector_def
        EmbeddedContentGenerator_get_vector_def base_vector_state reddit_get_vector_state
        get_goose_cls get_goose_article get_goose_checks)

text \<open>
  C9, as amended. The class and the article of an instance are fixed: \<open>generate()\<close> and
  \<open>get_vector()\<close> never change them. The pure-post test of a reddit instance is not
  memoized: every call of \<open>generate()\<close> or \<open>get_vector()\<close> on such an instance evaluates
  \<open>is_pure_reddit_post\<close> once more, and no call on another instance evaluates it. Each
  evaluation gives the same answer.
\<close>

theorem classification_fixed_but_recomputed:
  "cls (snd (generate e g)) = cls g
   \<and> article (snd (generate e g)) = article g
   \<and> cls (snd (get_vector e g)) = cls g
   \<and> article (snd (get_vector e g)) = article g
   \<and> count_list (trace (snd (generate e g))) PureRedditCheck =
       (if cls g = RedditContentGenerator then Suc (count_list (trace g) PureRedditCheck)
        else count_list (trace g) PureRedditCheck)
   \<and> count_list (trace (snd (get_vector e g))) PureRedditCheck =
       (if cls g = RedditContentGenerator then Suc (count_list (trace g) PureRedditCheck)
        else count_list (trace g) PureRedditCheck)
   \<and> fst (is_pure_reddit_post e' (snd (generate e g))) = fst (is_pure_reddit_post e g)
   \<and> fst (is_pure_reddit_post e' (snd (get_vector e g))) = fst (is_pure_reddit_post e g)"
  using generate_state_facts [of e g] get_vector_state_facts [of e g]
  by (simp add: is_pure_value)

theorem classification_fixed_but_recomputed_witness:
  "cls (snd (generate online (get_content_generator_wrapped crosspost)))
     = RedditContentGenerator
   \<and> count_list (trace (snd (get_vector online (get_content_generator_wrapped crosspost))))
        PureRedditCheck = 1
   \<and> fst (is_pure_reddit_post redirecting
            (snd (generate online (get_content_generator_wrapped crosspost)))) = False"
proof -
  have c: "cls (get_content_generator_wrapped crosspost) = RedditContentGenerator"
    and t: "trace (get_content_generator_wrapped crosspost) = []"
    and p: "fst (is_pure_reddit_post online (get_content_generator_wrapped crosspost)) = False"
    by (simp_all add: wrapped_class init_def crosspost_def reddit_feed_def is_pure_value)
  from classification_fixed_but_recomputed
         [of online "get_content_generator_wrapped crosspost" redirecting] c t p
  show ?thesis by simp
qed

text \<open>
  C9, as stated, fails: calls on one instance run the classification again. On the
  reddit instance for \<open>crosspost\<close>, the first \<open>generate()\<close> evaluates
  \<open>is_pure_reddit_post\<close> once and the second evaluates it a second time.
\<close>

theorem generate_repeats_pure_check:
  "count_list (trace (snd (generate online (get_content_generator_wrapped crosspost))))
     PureRedditCheck = 1
   \<and> count_list (trace (snd (generate online
                              (snd (generate online (get_content_generator_wrapped crosspost))))))
     PureRedditCheck = 2"
proof -
  let ?g = "get_content_generator_wrapped crosspost"
  have c: "cls ?g = RedditContentGenerator" and t: "trace ?g = []"
    by (simp_all add: wrapped_class init_def crosspost_def reddit_feed_def)
  have 1: "count_list (trace (snd (generate online ?g))) PureRedditCheck = 1"
    using generate_state_facts [of online ?g] c t by simp
  have c1: "cls (snd (generate online ?g)) = RedditContentGenerator"
    using generate_state_facts [of online ?g] c by simp
  have 2: "count_list (trace (snd (generate online (snd (generate online ?g)))))
             PureRedditCheck = 2"
    using generate_state_facts [of online "snd (generate online ?g)"] c1 1 by simp
  from 1 2 show ?thesis by (rule conjI)
qed

subsection \<open>Where exceptions can arise\<close>

text \<open>
  An image article that has a text is rendered without failure; \<open>get_vector()\<close> never
  raises; \<open>generate()\<close> raises on no instance of another class, provided an embedded
  instance stands for an article that has a type, as the dispatcher ensures.
\<close>

lemma image_generate_with_text:
  assumes "article_type (article g) = Some ArticleType_image"
    and "(if truthy (title (article g)) then title (article g) else content (article g))
           = Some s"
  shows "ImageContentGenerator_generate g =
           (Inr (True, [(''type'', Str ''image''),
                        (''alt'', Str (html_escape (take 100 s))),
                        (''src'', Str (link (article g)))]), g)
         \<and> ImageContentGenerator_get_vector g = (Inr None, g)"
  using assms
  by (simp add: ImageContentGenerator_generate_def ImageContentGenerator_get_vector_def
        IMG_ALT_MAX_LENGTH_def Let_def)

lemma truncated_returns: "\<not> isl (fst (TruncatedContentGenerator_generate e g))"
  by (simp add: TruncatedContentGenerator_generate_def Let_def)

lemma base_vector_returns: "\<not> isl (fst (ContentGenerator_get_vector e g))"
  by (simp add: ContentGenerator_get_vector_def Let_def split: option.splits)

lemma get_vector_returns: "\<not> isl (fst (get_vector e g))"
  by (cases "cls g")
     (simp_all add: get_vector_def ImageContentGenerator_get_vector_def
        EmbeddedContentGenerator_get_vector_def base_vector_returns
        reddit_get_vector_unfold)

lemma embedded_returns:
  assumes "article_type (article g) \<noteq> None"
  shows "\<not> isl (fst (EmbeddedContentGenerator_generate g))"
  using assms
  by (auto simp: EmbeddedContentGenerator_generate_def group_def Let_def
        split: option.splits sum.splits)

lemma generate_returns_elsewhere:
  assumes "cls g \<noteq> ImageContentGenerator"
    and "cls g = EmbeddedContentGenerator \<Longrightarrow> article_type (article g) \<noteq> None"
  shows "\<not> isl (fst (generate e g))"
  using assms
  by (cases "cls g")
     (simp_all add: generate_def ContentGenerator_generate_def embedded_returns
        truncated_returns reddit_generate_unfold)

end
